theory Spec2Isabelle
  imports Main "HOL-Library.AList"
begin

section \<open>JavaScript values used by the package manager\<close>

text \<open>
  The scripts under \<^verbatim>\<open>scripts/manage-packages/src\<close> list and delete the package
  versions of a container image. This theory embeds the functions of \<^verbatim>\<open>util.ts\<close>,
  \<^verbatim>\<open>octo.ts\<close>, \<^verbatim>\<open>docker.ts\<close>, \<^verbatim>\<open>cmd_parser.ts\<close> and
  \<^verbatim>\<open>manage-packages.ts\<close> that decide how digests are classified and deleted.

  A JavaScript \<^verbatim>\<open>Map\<close> keeps its entries in insertion order: \<^verbatim>\<open>set\<close> on a present
  key replaces the value in place, on an absent key it appends. That is
  \<^const>\<open>AList.update\<close> on an association list, and \<^verbatim>\<open>Map.prototype.get\<close> is
  \<^const>\<open>map_of\<close>, with \<^verbatim>\<open>undefined\<close> as \<^const>\<open>None\<close>.
\<close>

type_synonym ('k, 'v) jsmap = "('k \<times> 'v) list"

text \<open>\<^verbatim>\<open>String.prototype.indexOf\<close> for a one-character needle: \<open>-1\<close> when absent.\<close>

fun indexOf :: "'a list \<Rightarrow> 'a \<Rightarrow> int" where
  "indexOf [] c = - 1"
| "indexOf (x # xs) c =
     (if x = c then 0 else (let i = indexOf xs c in if i < 0 then - 1 else i + 1))"

text \<open>\<^verbatim>\<open>s.substring(0, n)\<close>: a negative end counts as 0, a large one as the length.\<close>

definition substring0 :: "string \<Rightarrow> int \<Rightarrow> string" where
  "substring0 s n = take (nat n) s"

text \<open>\<^verbatim>\<open>String.prototype.split\<close> on a one-character separator, without a limit.\<close>

fun split_on :: "char \<Rightarrow> string \<Rightarrow> string list" where
  "split_on c [] = [[]]"
| "split_on c (x # xs) =
     (if x = c then [] # split_on c xs
      else (case split_on c xs of [] \<Rightarrow> [[x]] | p # ps \<Rightarrow> (x # p) # ps))"

text \<open>Reading an array element that may be out of range gives \<^verbatim>\<open>undefined\<close>.\<close>

definition nth_opt :: "'a list \<Rightarrow> nat \<Rightarrow> 'a option" where
  "nth_opt xs i = (if i < length xs then Some (xs ! i) else None)"

text \<open>
  \<^verbatim>\<open>new Set(tags)\<close>: the elements in the order of their first occurrence, each once.
\<close>

definition newSet :: "'a list \<Rightarrow> 'a list" where
  "newSet xs = fold (\<lambda>x acc. if x \<in> set acc then acc else acc @ [x]) xs []"

section \<open>\<^verbatim>\<open>util.ts\<close>: the map with default values\<close>

text \<open>
  \<^verbatim>\<open>
  get(key: K): V {
      let v = super.get(key);
      if (v === undefined) {
          v = this.defaultValueCallback(key, this);
          this.set(key, v);
      }
      return v;
  }
  \<close>
  Values of type \<open>'v\<close> are the values of the TypeScript type \<^verbatim>\<open>V\<close>, which are not
  \<^verbatim>\<open>undefined\<close>. The callback receives the map object itself and may change it
  before it returns, so it is modelled as returning the value together with the map it
  leaves behind.
\<close>

type_synonym ('k, 'v) defaultValueCallback = "'k \<Rightarrow> ('k, 'v) jsmap \<Rightarrow> 'v \<times> ('k, 'v) jsmap"

definition DefaultValueMap_get ::
  "('k, 'v) defaultValueCallback \<Rightarrow> ('k, 'v) jsmap \<Rightarrow> 'k \<Rightarrow> 'v \<times> ('k, 'v) jsmap" where
  "DefaultValueMap_get cb m key =
     (case map_of m key of
        Some v \<Rightarrow> (v, m)
      | None \<Rightarrow> (let (v, m') = cb key m in (v, AList.update key v m')))"

section \<open>\<^verbatim>\<open>cmd_parser.ts\<close> and \<^verbatim>\<open>octo.ts\<close>: the repository argument\<close>

datatype error =
    CmdLineParserError string
  | FalsyName nat
  | RegistryError string
  | EmptyManifestList string
  | InconsistentOrphan "nat option" string
  | InconsistentNoTag nat
  | DeleteFailed nat
  | TypeError

text \<open>
  \<^verbatim>\<open>
  function validateRepo(repo?: string): string {
      if (!repo || repo.indexOf("/") < 1) {
          throw new CmdLineParserError(`Invalid repository argument ...`);
      }
      return repo;
  }
  \<close>
\<close>

definition validateRepo :: "string option \<Rightarrow> error + string" where
  "validateRepo repo =
     (case repo of
        None \<Rightarrow> Inl (CmdLineParserError ''Invalid repository argument'')
      | Some r \<Rightarrow>
          if r = [] \<or> indexOf r (CHR ''/'') < 1
          then Inl (CmdLineParserError ''Invalid repository argument'')
          else Inr r)"

text \<open>
  \<^verbatim>\<open>
  export function unpackRepo(repo: string): [string, string] {
      const [account, repoName] = repo.split("/", 2);
      return [account, repoName];
  }
  \<close>
  The limit 2 keeps the first two components and drops the rest. Destructuring an
  array that is too short gives \<^verbatim>\<open>undefined\<close>.
\<close>

definition unpackRepo :: "string \<Rightarrow> string option \<times> string option" where
  "unpackRepo repo =
     (let parts = take 2 (split_on (CHR ''/'') repo)
      in (nth_opt parts 0, nth_opt parts 1))"

section \<open>\<^verbatim>\<open>octo.ts\<close>: grouping tags\<close>

text \<open>
  In \<^verbatim>\<open>getPackageVersionsByImageTag\<close>, for a package version whose tag list is not empty:
  \<^verbatim>\<open>
  const tagGroup = new Set(tags);
  tagGroup.forEach((tag) => tagGroups.set(tag, tagGroup));
  \<close>
  No set is changed after it is built, so a group is modelled by its value.
\<close>

definition groupTags :: "string list \<Rightarrow> (string, string list) jsmap \<Rightarrow> (string, string list) jsmap" where
  "groupTags tags tagGroups =
     (let tagGroup = newSet tags
      in fold (\<lambda>tag m. AList.update tag tagGroup m) tagGroup tagGroups)"

section \<open>The process: abort controller, exit code and what the run does\<close>

text \<open>
  \<^verbatim>\<open>export const controller = new AbortController();\<close> and \<^verbatim>\<open>process.exitCode\<close> are
  global to the process. The run is observed through a trace: the lines given to the
  logger, the lines written by \<^verbatim>\<open>console.log\<close>, and the calls of the ledger's delete
  endpoint. A \<open>DeleteCall\<close> records the map entry (its digest) for which the call is made
  next to the package version id that the endpoint receives.
\<close>

datatype level = LError | LWarn | LInfo | LDebug

record PackageVersion =
  pkg_id :: nat
  pkg_name :: string
  pkg_tags :: "string list"

datatype message =
    MsgError error
  | MsgAbortReason error
  | MsgMissingDigest string
  | MsgImageIndex string "string option list"
  | MsgFoundOrphan "nat option" string bool
  | MsgMissingImage string string "string list"
  | MsgDeleting nat string bool
  | MsgDeletedCount nat
  | MsgInspectMap
  | MsgVersions nat
  | MsgDigests nat
  | MsgTags nat
  | MsgToDelete nat "string list"
  | MsgOrphans nat
  | MsgMissingTagGroup string

datatype event =
    Log level message
  | DeleteCall string nat
  | ConsoleGroup "string list" "PackageVersion list"
  | ConsoleSummary nat nat

text \<open>The calls of the delete endpoint among the events of a trace.\<close>

fun isDeleteCall :: "event \<Rightarrow> bool" where
  "isDeleteCall (DeleteCall dg n) = True"
| "isDeleteCall (Log lv msg) = False"
| "isDeleteCall (ConsoleGroup tagGroup pkgs) = False"
| "isDeleteCall (ConsoleSummary pkgCount tagGroupCount) = False"

definition deleteCalls :: "event list \<Rightarrow> event list" where
  "deleteCalls tr = filter isDeleteCall tr"

record gstate =
  aborted :: "error option"
  exitCode :: nat
  trace :: "event list"

definition logger :: "level \<Rightarrow> message \<Rightarrow> 'a gstate_scheme \<Rightarrow> 'a gstate_scheme" where
  "logger lv msg g = g\<lparr>trace := trace g @ [Log lv msg]\<rparr>"

text \<open>
  \<^verbatim>\<open>controller.abort(reason)\<close>: a second call is a no-op. The first call runs the listener
  that \<^verbatim>\<open>main\<close> installed (every reason in this program is an \<^verbatim>\<open>Error\<close>):
  \<^verbatim>\<open>
  signal.addEventListener("abort", () => {
      let logf = log.info;
      if (signal.reason instanceof Error) {
          process.exitCode ||= 1;
          logf = log.error;
      }
      logf("AbortController signal.reason: %s", signal.reason);
  });
  \<close>
\<close>

definition controller_abort :: "error \<Rightarrow> 'a gstate_scheme \<Rightarrow> 'a gstate_scheme" where
  "controller_abort reason g =
     (if aborted g \<noteq> None then g
      else logger LError (MsgAbortReason reason)
             (g\<lparr>aborted := Some reason,
                exitCode := (if exitCode g = 0 then 1 else exitCode g)\<rparr>))"

text \<open>\<^verbatim>\<open>throwIfAborted\<close>: the error thrown, if any.\<close>

definition throwIfAborted :: "'a gstate_scheme \<Rightarrow> error option" where
  "throwIfAborted g = aborted g"

text \<open>The abort listener keeps this true: once the signal is aborted the exit code is not zero.\<close>

definition failed_when_aborted :: "'a gstate_scheme \<Rightarrow> bool" where
  "failed_when_aborted g \<longleftrightarrow> (aborted g \<noteq> None \<longrightarrow> exitCode g \<noteq> 0)"



section \<open>\<^verbatim>\<open>docker.ts\<close> and \<^verbatim>\<open>registry.ts\<close>: image indexes\<close>

text \<open>
  \<^verbatim>\<open>
  export function trunc8(s: string): string {
      return s.substring(0, s.indexOf(":") + 9);
  }
  \<close>
\<close>

definition trunc8 :: "string \<Rightarrow> string" where
  "trunc8 s = substring0 s (indexOf s (CHR '':'') + 9)"

text \<open>
  Of an entry of \<^verbatim>\<open>ImageIndex.manifests\<close> the reconciliation reads the digest only. The
  interface declares it a string, the JSON body of the registry may lack it.
\<close>

record ImageManifest =
  manifest_digest :: "string option"

text \<open>
  What \<^verbatim>\<open>getImageIndex\<close> gives for one request: the error it throws, or the
  \<^verbatim>\<open>manifests\<close> array of the index it returns.
\<close>

type_synonym fetched = "error + ImageManifest list"

text \<open>
  \<^verbatim>\<open>printImageIndex\<close> of \<^verbatim>\<open>registry.ts\<close>: one warning for each manifest without a
  digest, then the whole listing at debug level.
\<close>

definition printImageIndex :: "string \<Rightarrow> ImageManifest list \<Rightarrow> 'a gstate_scheme \<Rightarrow> 'a gstate_scheme" where
  "printImageIndex imageNameTag manifests g =
     logger LDebug (MsgImageIndex imageNameTag (map manifest_digest manifests))
       (fold (\<lambda>manifest g'.
                if manifest_digest manifest = None \<or> manifest_digest manifest = Some []
                then logger LWarn (MsgMissingDigest imageNameTag) g' else g')
             manifests g)"

text \<open>
  The same step in \<^verbatim>\<open>getImageDigestsForMultiplatformImage\<close> of \<^verbatim>\<open>docker.ts\<close>, which
  reads the index through the \<^verbatim>\<open>docker\<close> command line:
  \<^verbatim>\<open>
  const digests: string[] = (imageIndex?.manifests || [])
      .map((manifest) => manifest.digest)
      .filter((digest): digest is string => !!digest);
  \<close>
\<close>

definition docker_digests :: "ImageManifest list \<Rightarrow> string list" where
  "docker_digests manifests =
     concat (map (\<lambda>manifest. case manifest_digest manifest of
                                 None \<Rightarrow> [] | Some d \<Rightarrow> if d = [] then [] else [d])
                 manifests)"

text \<open>
  \<^verbatim>\<open>getDigestsFromManifestIndex\<close> of \<^verbatim>\<open>octo.ts\<close>:
  \<^verbatim>\<open>
  let digests: string[] = [];
  try {
      const manifest = await getImageIndex(opts);
      if (opts.printImageIndex) { printImageIndex(`${repo}:${tag}`, manifest, ...); }
      digests = (manifest?.manifests || []).map((manifest) => manifest.digest);
  } catch (err) {
      if (abort) { log().error(err); controller.abort(err); return []; }
      throw err;
  }
  if (!digests.length) {
      const err = new Error(`Empty manifest list for tag '${repo}:${tag}'`);
      if (abort) { log().error(err); controller.abort(err); return []; }
      throw err;
  }
  return digests;
  \<close>
  A manifest without digest gives \<^verbatim>\<open>undefined\<close> in the array, here \<^const>\<open>None\<close>.
\<close>

definition getDigestsFromManifestIndex ::
  "string \<Rightarrow> string \<Rightarrow> bool \<Rightarrow> bool \<Rightarrow> fetched \<Rightarrow> 'a gstate_scheme
     \<Rightarrow> (error + string option list) \<times> 'a gstate_scheme" where
  "getDigestsFromManifestIndex repo tag abort printIdx response g =
     (case response of
        Inl err \<Rightarrow>
          if abort then (Inr [], controller_abort err (logger LError (MsgError err) g))
          else (Inl err, g)
      | Inr manifests \<Rightarrow>
          (let g1 = (if printIdx then printImageIndex (repo @ '':'' @ tag) manifests g else g);
               digests = map manifest_digest manifests
           in if digests = [] then
                (let err = EmptyManifestList (repo @ '':'' @ tag)
                 in if abort then (Inr [], controller_abort err (logger LError (MsgError err) g1))
                    else (Inl err, g1))
              else (Inr digests, g1)))"

section \<open>\<^verbatim>\<open>octo.ts\<close>: what the environment does during a run\<close>

text \<open>
  The enumeration of the ledger and the fetches of the image indexes run interleaved.
  A run is driven by what the environment delivers, in the order it delivers it:
  \<^item> \<open>Record pkg\<close>: the pagination hands the next package version to the callback of
    \<^verbatim>\<open>forEachPackageVersion\<close>;
  \<^item> \<open>Fetched k r\<close>: the request of the task pushed as number \<open>k\<close> onto \<^verbatim>\<open>tasks\<close>
    completes with \<open>r\<close>, and the rest of the task's body runs.
  The limiter (\<^verbatim>\<open>pLimit(5)\<close>) decides when a task starts and which queued tasks are
  dropped on abort; a task that is dropped, or never answered, has no \<open>Fetched\<close> event. An
  event for a task that was not pushed, or that has completed already, denotes nothing
  the program can observe and is skipped.
\<close>

datatype sched = Record PackageVersion | Fetched nat fetched

section \<open>\<^verbatim>\<open>octo.ts\<close>: finding orphan and tagged package versions\<close>

record PkgInfo =
  info_id :: "nat option"
  isOrphan :: bool
  belongsToTagsToDelete :: bool
  indexDigest :: string
  info_tags :: "string list"

type_synonym digestMap = "(string option, PkgInfo) jsmap"

text \<open>The closure of one task: \<^verbatim>\<open>tags[0]\<close>, \<^verbatim>\<open>pkgDigest\<close>, \<^verbatim>\<open>belongsToTagsToBeDeleted\<close>.\<close>

record task =
  task_tag :: string
  task_digest :: string
  task_belongs :: bool
  settled :: bool

record dstate = gstate +
  digestToPkgMap :: digestMap
  tasks :: "task list"

definition defaultPkgInfo :: PkgInfo where
  "defaultPkgInfo =
     \<lparr>info_id = None, isOrphan = True, belongsToTagsToDelete = False,
      indexDigest = [], info_tags = []\<rparr>"

definition pkgInfoCallback :: "(string option, PkgInfo) defaultValueCallback" where
  "pkgInfoCallback key m = (defaultPkgInfo, m)"

text \<open>
  The callback given to \<^verbatim>\<open>forEachPackageVersion\<close>. The result is the error thrown, if any.
  \<^verbatim>\<open>
  const pkgDigest = pkg.name;
  if (!pkgDigest) { const err = ...; controller.abort(err); throw err; }
  const pkgInfo = digestToPkgMap.get(pkgDigest);
  pkgInfo.id = pkg.id;
  const tags = (pkg.metadata?.container?.tags || []).filter((tag) => tag);
  if (!tags.length) { return; }
  pkgInfo.indexDigest = pkgDigest;
  pkgInfo.tags = tags;
  pkgInfo.isOrphan = false;
  const belongsToTagsToBeDeleted = !!tagsToDelete.intersection(new Set(tags)).size;
  pkgInfo.belongsToTagsToDelete = belongsToTagsToBeDeleted;
  tasks.push(limit(async () => { ... }));
  \<close>
\<close>

definition findCb :: "string list \<Rightarrow> PackageVersion \<Rightarrow> dstate \<Rightarrow> error option \<times> dstate" where
  "findCb tagsToDelete pkg st =
     (let pkgDigest = pkg_name pkg
      in if pkgDigest = [] then
           (let err = FalsyName (pkg_id pkg) in (Some err, controller_abort err st))
         else
           (let (pkgInfo, m1) = DefaultValueMap_get pkgInfoCallback (digestToPkgMap st) (Some pkgDigest);
                pkgInfo1 = pkgInfo\<lparr>info_id := Some (pkg_id pkg)\<rparr>;
                tgs = filter (\<lambda>tag. tag \<noteq> []) (pkg_tags pkg)
            in if tgs = [] then
                 (None, st\<lparr>digestToPkgMap := AList.update (Some pkgDigest) pkgInfo1 m1\<rparr>)
               else
                 (let belongsToTagsToBeDeleted = (filter (\<lambda>t. t \<in> set tgs) tagsToDelete \<noteq> []);
                      pkgInfo2 = pkgInfo1\<lparr>indexDigest := pkgDigest, info_tags := tgs,
                                   isOrphan := False,
                                   belongsToTagsToDelete := belongsToTagsToBeDeleted\<rparr>
                  in (None,
                      st\<lparr>digestToPkgMap := AList.update (Some pkgDigest) pkgInfo2 m1,
                         tasks := tasks st @
                           [\<lparr>task_tag = hd tgs, task_digest = pkgDigest,
                             task_belongs = belongsToTagsToBeDeleted, settled = False\<rparr>]\<rparr>))))"

text \<open>
  The body of a task, from the moment its request completes:
  \<^verbatim>\<open>
  const digests = await getDigestsFromManifestIndex({ ..., abort: true, printImageIndex: false });
  digests.forEach((digest) => {
      const _pkgInfo = digestToPkgMap.get(digest);
      _pkgInfo.belongsToTagsToDelete = belongsToTagsToBeDeleted;
      _pkgInfo.isOrphan = false;
      _pkgInfo.indexDigest = pkgDigest;
  });
  \<close>
\<close>

definition findUpdate :: "task \<Rightarrow> string option \<Rightarrow> digestMap \<Rightarrow> digestMap" where
  "findUpdate t dg m =
     (let (pkgInfo, m1) = DefaultValueMap_get pkgInfoCallback m dg
      in AList.update dg
           (pkgInfo\<lparr>belongsToTagsToDelete := task_belongs t, isOrphan := False,
                    indexDigest := task_digest t\<rparr>) m1)"

definition findTaskDigests :: "string \<Rightarrow> task \<Rightarrow> fetched \<Rightarrow> dstate \<Rightarrow> (error + string option list) \<times> dstate" where
  "findTaskDigests repo t response st =
     getDigestsFromManifestIndex repo (task_tag t) True False response st"

definition findTask :: "string \<Rightarrow> task \<Rightarrow> fetched \<Rightarrow> dstate \<Rightarrow> error option \<times> dstate" where
  "findTask repo t response st =
     (case findTaskDigests repo t response st of
        (Inl err, st1) \<Rightarrow> (Some err, st1)
      | (Inr digests, st1) \<Rightarrow>
          (None, st1\<lparr>digestToPkgMap := fold (findUpdate t) digests (digestToPkgMap st1)\<rparr>))"

text \<open>
  \<^verbatim>\<open>forEachPackageVersion\<close> leaves its loop at the first item it meets with the signal
  aborted, so no later record reaches the callback. An error thrown by the callback
  ends \<^verbatim>\<open>findOrphanOrTaggedPackageVersions\<close> at once.
\<close>

fun findEvents :: "string \<Rightarrow> string list \<Rightarrow> sched list \<Rightarrow> dstate \<Rightarrow> error option \<times> dstate" where
  "findEvents repo tagsToDelete [] st = (None, st)"
| "findEvents repo tagsToDelete (Record pkg # es) st =
     (if aborted st \<noteq> None then findEvents repo tagsToDelete es st
      else (case findCb tagsToDelete pkg st of
              (Some err, st1) \<Rightarrow> (Some err, st1)
            | (None, st1) \<Rightarrow> findEvents repo tagsToDelete es st1))"
| "findEvents repo tagsToDelete (Fetched k response # es) st =
     (if k < length (tasks st) \<and> \<not> settled (tasks st ! k) then
        (case findTask repo (tasks st ! k) response
                (st\<lparr>tasks := (tasks st)[k := (tasks st ! k)\<lparr>settled := True\<rparr>]\<rparr>) of
           (Some err, st1) \<Rightarrow> (Some err, st1)
         | (None, st1) \<Rightarrow> findEvents repo tagsToDelete es st1)
      else findEvents repo tagsToDelete es st)"

text \<open>
  \<^verbatim>\<open>
  await forEachPackageVersion({ packageName, octokit, cb: forEachPackageVersionCb });
  await Promise.all(tasks);
  throwIfAborted("Error during async task processing");
  return digestToPkgMap;
  \<close>
  \<^verbatim>\<open>Promise.all\<close> is settled only when every task is.
\<close>


definition gstate_of :: "'a gstate_scheme \<Rightarrow> gstate" where
  "gstate_of st = \<lparr>aborted = aborted st, exitCode = exitCode st, trace = trace st\<rparr>"



section \<open>\<^verbatim>\<open>octo.ts\<close>: the report and the deletions\<close>

text \<open>
  \<^verbatim>\<open>logRegistryStats\<close> counts over the map and logs the counts. It throws when no tag
  was given for deletion and yet some entry belongs to a tag to delete.
\<close>

definition logRegistryStats ::
  "string list \<Rightarrow> digestMap \<Rightarrow> bool \<Rightarrow> gstate \<Rightarrow> error option \<times> gstate" where
  "logRegistryStats tagsToDelete m debug g =
     (let g0 = (if debug then logger LDebug MsgInspectMap g else g);
          idCount = length (filter (\<lambda>e. info_id (snd e) \<noteq> None) m);
          orphanCount = length (filter (\<lambda>e. isOrphan (snd e)) m);
          overallTagCount = sum_list (map (\<lambda>e. length (info_tags (snd e))) m);
          tagToBeDeletedDigestCount = length (filter (\<lambda>e. belongsToTagsToDelete (snd e)) m);
          g1 = logger LInfo (MsgTags overallTagCount)
                 (logger LInfo (MsgDigests (length m))
                    (logger LInfo (MsgVersions idCount) g0))
      in if tagsToDelete = [] \<and> tagToBeDeletedDigestCount \<noteq> 0 then
           (let err = InconsistentNoTag tagToBeDeletedDigestCount
            in (Some err, logger LError (MsgError err) g1))
         else
           (let g2 = (if tagsToDelete \<noteq> [] \<or> tagToBeDeletedDigestCount \<noteq> 0
                      then logger LInfo (MsgToDelete tagToBeDeletedDigestCount tagsToDelete) g1
                      else g1)
            in (None, logger (if orphanCount \<noteq> 0 then LWarn else LInfo) (MsgOrphans orphanCount) g2)))"

text \<open>
  \<^verbatim>\<open>
  async function deletePackageVersion(opts) {
      throwIfAborted("Error during async task processing");
      await octokit.rest.packages.deletePackageVersionForAuthenticatedUser({ ... });
  }
  \<close>
  \<open>ledgerDelete id\<close> tells whether the ledger answers the request with success; the
  client throws otherwise.
\<close>

definition deletePackageVersion ::
  "(nat \<Rightarrow> bool) \<Rightarrow> string \<Rightarrow> nat \<Rightarrow> gstate \<Rightarrow> error option \<times> gstate" where
  "deletePackageVersion ledgerDelete dg packageVersionID g =
     (case throwIfAborted g of
        Some err \<Rightarrow> (Some err, g)
      | None \<Rightarrow>
          (let g1 = g\<lparr>trace := trace g @ [DeleteCall dg packageVersionID]\<rparr>
           in if ledgerDelete packageVersionID then (None, g1)
              else (Some (DeleteFailed packageVersionID), g1)))"

text \<open>
  The body of the loop of \<^verbatim>\<open>deletePackageVersions\<close> for one entry of the map:
  \<^verbatim>\<open>
  const shortDg = trunc8(digest);
  if (isOrphan) {
      logger.warn("Found orphan package version of id='%s' digest='%s'. %s", id, shortDg, action);
      if (indexDigest || tags.length) { ...; logger.error(err); throw err; }
  }
  if (id === undefined) {
      logger.warn("Registry inconsistency: Missing image ...", shortDg, trunc8(indexDigest),
          (digestToPkgMap.get(indexDigest)?.tags || []).join(", "));
      continue;
  }
  if (belongsToTagsToDelete || (deleteOrphans && isOrphan)) {
      logger.info("Deleting package version of id='%s' digest='%s' for reason: %s", ...);
      await deletePackageVersion({ packageName, packageVersionID: id, octokit });
      deletedCount++;
  }
  \<close>
  \<^verbatim>\<open>trunc8\<close> of a key that is \<^verbatim>\<open>undefined\<close> throws a \<^verbatim>\<open>TypeError\<close>. The map is the
  \<^verbatim>\<open>DefaultValueMap\<close> built by \<^verbatim>\<open>findOrphanOrTaggedPackageVersions\<close>, so looking up
  \<^verbatim>\<open>indexDigest\<close> adds a default entry when the key is absent. The result is the error
  thrown, or whether a deletion was counted.
\<close>

definition inconsistentOrphan :: "PkgInfo \<Rightarrow> bool" where
  "inconsistentOrphan info \<longleftrightarrow> isOrphan info \<and> (indexDigest info \<noteq> [] \<or> info_tags info \<noteq> [])"

definition deletionTarget :: "bool \<Rightarrow> PkgInfo \<Rightarrow> bool" where
  "deletionTarget deleteOrphans info \<longleftrightarrow>
     belongsToTagsToDelete info \<or> (deleteOrphans \<and> isOrphan info)"

definition deleteEntry ::
  "(nat \<Rightarrow> bool) \<Rightarrow> bool \<Rightarrow> string option \<times> PkgInfo \<Rightarrow> digestMap \<Rightarrow> gstate
     \<Rightarrow> (error + bool) \<times> digestMap \<times> gstate" where
  "deleteEntry ledgerDelete deleteOrphans entry m g =
     (case fst entry of
        None \<Rightarrow> (Inl TypeError, m, g)
      | Some dg \<Rightarrow>
          (let info = snd entry;
               shortDg = trunc8 dg;
               g1 = (if isOrphan info
                     then logger LWarn (MsgFoundOrphan (info_id info) shortDg deleteOrphans) g
                     else g)
           in if inconsistentOrphan info then
                (let err = InconsistentOrphan (info_id info) shortDg
                 in (Inl err, m, logger LError (MsgError err) g1))
              else
                (case info_id info of
                   None \<Rightarrow>
                     (let (idx, m1) = DefaultValueMap_get pkgInfoCallback m (Some (indexDigest info))
                      in (Inr False, m1,
                          logger LWarn
                            (MsgMissingImage shortDg (trunc8 (indexDigest info)) (info_tags idx)) g1))
                 | Some i \<Rightarrow>
                     if deletionTarget deleteOrphans info then
                       (case deletePackageVersion ledgerDelete dg i
                               (logger LInfo (MsgDeleting i shortDg (belongsToTagsToDelete info)) g1) of
                          (Some err, g2) \<Rightarrow> (Inl err, m, g2)
                        | (None, g2) \<Rightarrow> (Inr True, m, g2))
                     else (Inr False, m, g1))))"

text \<open>
  \<^verbatim>\<open>for (const [digest, {...}] of digestToPkgMap)\<close>: the entries in insertion order,
  those added while the loop runs included.
\<close>

function deleteLoop ::
  "(nat \<Rightarrow> bool) \<Rightarrow> bool \<Rightarrow> nat \<Rightarrow> digestMap \<Rightarrow> nat \<Rightarrow> gstate \<Rightarrow> (error + nat) \<times> gstate" where
  "deleteLoop ledgerDelete deleteOrphans i m deletedCount g =
     (if length m \<le> i then (Inr deletedCount, g)
      else (case deleteEntry ledgerDelete deleteOrphans (m ! i) m g of
              (Inl err, m1, g1) \<Rightarrow> (Inl err, g1)
            | (Inr deleted, m1, g1) \<Rightarrow>
                deleteLoop ledgerDelete deleteOrphans (Suc i) m1
                  (if deleted then Suc deletedCount else deletedCount) g1))"
  by pat_completeness auto
termination
proof (relation "measures
    [\<lambda>(ld, dor, i, m, n, g).
        card (insert (Some []) ((\<lambda>e. Some (indexDigest (snd e))) ` set (drop i m)) - fst ` set m),
     \<lambda>(ld, dor, i, m, n, g). length m - i]", goal_cases)
  case 1
  show ?case by simp
next
  case (2 ld dor i m n g res rest deleted m1 g1)
  let ?K = "\<lambda>i m. insert (Some []) ((\<lambda>e. Some (indexDigest (snd e))) ` set (drop i m)) - fst ` set m"
  from 2 have lt: "i < length m" by simp
  from 2 have de: "deleteEntry ld dor (m ! i) m g = (Inr deleted, m1, g1)" by simp
  have dr: "drop i m = (m ! i) # drop (Suc i) m"
    using lt by (simp add: Cons_nth_drop_Suc)
  consider (same) "m1 = m"
    | (grow) "map_of m (Some (indexDigest (snd (m ! i)))) = None"
             "m1 = m @ [(Some (indexDigest (snd (m ! i))), defaultPkgInfo)]"
  proof -
    have "m1 = m \<or> (map_of m (Some (indexDigest (snd (m ! i)))) = None
            \<and> m1 = AList.update (Some (indexDigest (snd (m ! i)))) defaultPkgInfo m)"
      using de
      by (auto simp: deleteEntry_def Let_def DefaultValueMap_get_def pkgInfoCallback_def
          split: option.splits if_splits prod.splits)
    moreover have "map_of m k = None \<Longrightarrow> AList.update k v m = m @ [(k, v)]" for k v
      by (induction m) auto
    ultimately show ?thesis using same grow by blast
  qed
  then show ?case
  proof cases
    case same
    have "?K (Suc i) m \<subseteq> ?K i m"
      by (auto simp: dr)
    then have "card (?K (Suc i) m) \<le> card (?K i m)"
      by (intro card_mono) auto
    then show ?thesis using same lt by auto
  next
    case grow
    let ?k = "Some (indexDigest (snd (m ! i)))"
    have notin: "?k \<notin> fst ` set m"
      using grow(1) by (simp add: map_of_eq_None_iff)
    have kin: "?k \<in> ?K i m"
      using notin by (auto simp: dr)
    have "?K (Suc i) m1 \<subseteq> ?K i m - {?k}"
    proof
      fix x assume x: "x \<in> ?K (Suc i) m1"
      have "drop (Suc i) m1 = drop (Suc i) m @ [(?k, defaultPkgInfo)]"
        using grow(2) lt by simp
      with x have "x = Some [] \<or> x \<in> (\<lambda>e. Some (indexDigest (snd e))) ` set (drop (Suc i) m)"
        by (auto simp: defaultPkgInfo_def)
      moreover have "x \<notin> fst ` set m" "x \<noteq> ?k"
        using x grow(2) by auto
      ultimately show "x \<in> ?K i m - {?k}"
        by (auto simp: dr)
    qed
    then have "card (?K (Suc i) m1) \<le> card (?K i m - {?k})"
      by (intro card_mono) auto
    also have "\<dots> < card (?K i m)"
      using kin by (intro card_Diff1_less) auto
    finally show ?thesis by auto
  qed
qed

declare deleteLoop.simps [simp del]



section \<open>\<^verbatim>\<open>octo.ts\<close>: listing package versions by image tag\<close>

definition UNKNOWN_TAG :: string where
  "UNKNOWN_TAG = ''Unknown''"

text \<open>The closure of one task of the list path: \<^verbatim>\<open>tags[0]\<close> and \<^verbatim>\<open>pkg.name\<close>.\<close>

record ltask =
  ltask_tag :: string
  ltask_name :: string
  lsettled :: bool

record lstate = gstate +
  pkgVersions :: "PackageVersion list"
  tagGroups :: "(string, string list) jsmap"
  digestToHeadTag :: "(string option, string) jsmap"
  ltasks :: "ltask list"










section \<open>\<^verbatim>\<open>manage-packages.ts\<close>: running a command\<close>




section \<open>Example inputs\<close>

text \<open>
  A ledger with one image index tagged \<open>v1\<close> and \<open>latest\<close> whose manifest list names two
  images, and the options of \<^verbatim>\<open>delete acc/pkg v1\<close>. They serve as concrete inputs below.
\<close>

definition ex_D0 :: string where "ex_D0 = ''sha256:0000000000''"
definition ex_D1 :: string where "ex_D1 = ''sha256:1111111111''"








definition ex_st1 :: dstate where
  "ex_st1 =
     \<lparr>aborted = None, exitCode = 0, trace = [],
      digestToPkgMap =
        [(Some ex_D0, \<lparr>info_id = Some 10, isOrphan = False, belongsToTagsToDelete = True,
                       indexDigest = ex_D0, info_tags = [''v1'', ''latest'']\<rparr>),
         (Some ex_D1, \<lparr>info_id = Some 11, isOrphan = True, belongsToTagsToDelete = False,
                       indexDigest = [], info_tags = []\<rparr>)],
      tasks = [\<lparr>task_tag = ''v1'', task_digest = ex_D0, task_belongs = True, settled = False\<rparr>]\<rparr>"




section \<open>Properties\<close>

subsection \<open>Sets and maps\<close>

lemma fold_newSet_set:
  "set (fold (\<lambda>x acc. if x \<in> set acc then acc else acc @ [x]) xs acc0) = set acc0 \<union> set xs"
  by (induction xs arbitrary: acc0) auto

lemma fold_newSet_distinct:
  "distinct acc0 \<Longrightarrow> distinct (fold (\<lambda>x acc. if x \<in> set acc then acc else acc @ [x]) xs acc0)"
  by (induction xs arbitrary: acc0) auto

lemma set_newSet: "set (newSet xs) = set xs"
  by (simp add: newSet_def fold_newSet_set)

lemma distinct_newSet: "distinct (newSet xs)"
  by (simp add: newSet_def fold_newSet_distinct)

lemma map_of_fold_update:
  "map_of (fold (\<lambda>k m. AList.update k v m) ks m0) t = (if t \<in> set ks then Some v else map_of m0 t)"
  by (induction ks arbitrary: m0) (auto simp: update_conv')

subsection \<open>The global state\<close>

lemma logger_simps [simp]:
  "trace (logger lv msg g) = trace g @ [Log lv msg]"
  "aborted (logger lv msg g) = aborted g"
  "exitCode (logger lv msg g) = exitCode g"
  by (simp_all add: logger_def)

lemma logger_dstate [simp]:
  "digestToPkgMap (logger lv msg st) = digestToPkgMap st"
  "tasks (logger lv msg st) = tasks st"
  by (simp_all add: logger_def)

lemma logger_lstate [simp]:
  "pkgVersions (logger lv msg ls) = pkgVersions ls"
  "tagGroups (logger lv msg ls) = tagGroups ls"
  "digestToHeadTag (logger lv msg ls) = digestToHeadTag ls"
  "ltasks (logger lv msg ls) = ltasks ls"
  by (simp_all add: logger_def)

lemma deleteCalls_simps [simp]:
  "deleteCalls [] = []"
  "deleteCalls (xs @ ys) = deleteCalls xs @ deleteCalls ys"
  "deleteCalls (Log lv msg # xs) = deleteCalls xs"
  "deleteCalls (ConsoleGroup a b # xs) = deleteCalls xs"
  "deleteCalls (ConsoleSummary c d # xs) = deleteCalls xs"
  "deleteCalls (DeleteCall dg n # xs) = DeleteCall dg n # deleteCalls xs"
  by (simp_all add: deleteCalls_def)

lemma deleteCalls_mem: "DeleteCall dg n \<in> set (deleteCalls tr) \<longleftrightarrow> DeleteCall dg n \<in> set tr"
  by (auto simp: deleteCalls_def)

lemma controller_abort_simps [simp]:
  "aborted (controller_abort err g) = (if aborted g = None then Some err else aborted g)"
  "exitCode (controller_abort err g) =
     (if aborted g = None \<and> exitCode g = 0 then 1 else exitCode g)"
  "trace (controller_abort err g) =
     trace g @ (if aborted g = None then [Log LError (MsgAbortReason err)] else [])"
  by (simp_all add: controller_abort_def)

lemma controller_abort_dstate [simp]:
  "digestToPkgMap (controller_abort err st) = digestToPkgMap st"
  "tasks (controller_abort err st) = tasks st"
  by (simp_all add: controller_abort_def)

lemma controller_abort_lstate [simp]:
  "pkgVersions (controller_abort err ls) = pkgVersions ls"
  "tagGroups (controller_abort err ls) = tagGroups ls"
  "digestToHeadTag (controller_abort err ls) = digestToHeadTag ls"
  "ltasks (controller_abort err ls) = ltasks ls"
  by (simp_all add: controller_abort_def)

lemma gstate_of_simps [simp]:
  "aborted (gstate_of st) = aborted st"
  "exitCode (gstate_of st) = exitCode st"
  "trace (gstate_of st) = trace st"
  by (simp_all add: gstate_of_def)

subsection \<open>Fetching with \<open>abort: true\<close>\<close>

lemma getDigests_abort_Inr:
  "\<exists>ds. fst (getDigestsFromManifestIndex repo tag True False r g) = Inr ds"
  by (auto simp: getDigestsFromManifestIndex_def Let_def split: sum.splits)

lemma getDigests_abort_fields:
  "deleteCalls (trace (snd (getDigestsFromManifestIndex repo tag True False r g))) = deleteCalls (trace g)"
  "aborted g \<noteq> None \<Longrightarrow> aborted (snd (getDigestsFromManifestIndex repo tag True False r g)) \<noteq> None"
  "exitCode g \<noteq> 0 \<Longrightarrow> exitCode (snd (getDigestsFromManifestIndex repo tag True False r g)) \<noteq> 0"
  "failed_when_aborted g \<Longrightarrow> failed_when_aborted (snd (getDigestsFromManifestIndex repo tag True False r g))"
  by (auto simp: getDigestsFromManifestIndex_def Let_def failed_when_aborted_def split: sum.splits)

lemma getDigests_abort_empty:
  "aborted (snd (getDigestsFromManifestIndex repo tag True False (Inr []) g)) \<noteq> None"
  by (auto simp: getDigestsFromManifestIndex_def Let_def)

lemma getDigests_abort_maps:
  "digestToPkgMap (snd (getDigestsFromManifestIndex repo tag True False r st)) = digestToPkgMap st"
  "tasks (snd (getDigestsFromManifestIndex repo tag True False r st)) = tasks st"
  by (auto simp: getDigestsFromManifestIndex_def Let_def split: sum.splits)

subsection \<open>The delete path\<close>

lemma findCb_fields:
  "deleteCalls (trace (snd (findCb tgd pkg st))) = deleteCalls (trace st)"
  "aborted st \<noteq> None \<Longrightarrow> aborted (snd (findCb tgd pkg st)) \<noteq> None"
  "exitCode st \<noteq> 0 \<Longrightarrow> exitCode (snd (findCb tgd pkg st)) \<noteq> 0"
  "failed_when_aborted st \<Longrightarrow> failed_when_aborted (snd (findCb tgd pkg st))"
  by (auto simp: findCb_def Let_def failed_when_aborted_def split: prod.splits)

lemma findTask_fields:
  "deleteCalls (trace (snd (findTask repo t r st))) = deleteCalls (trace st)"
  "aborted st \<noteq> None \<Longrightarrow> aborted (snd (findTask repo t r st)) \<noteq> None"
  "exitCode st \<noteq> 0 \<Longrightarrow> exitCode (snd (findTask repo t r st)) \<noteq> 0"
  "failed_when_aborted st \<Longrightarrow> failed_when_aborted (snd (findTask repo t r st))"
  using getDigests_abort_fields [where repo = repo and tag = "task_tag t" and r = r and g = st]
  by (auto simp: findTask_def findTaskDigests_def failed_when_aborted_def split: prod.splits sum.splits)

lemma findTask_empty:
  "aborted (snd (findTask repo t (Inr []) st)) \<noteq> None"
  using getDigests_abort_empty [of repo "task_tag t" st]
  by (auto simp: findTask_def findTaskDigests_def split: prod.splits sum.splits)

lemma findTask_None: "fst (findTask repo t r st) = None"
  using getDigests_abort_Inr [of repo "task_tag t" r st]
  by (auto simp: findTask_def findTaskDigests_def split: prod.splits sum.splits)

lemma findEvents_fields:
  "deleteCalls (trace (snd (findEvents repo tgd es st))) = deleteCalls (trace st)
   \<and> (aborted st \<noteq> None \<longrightarrow> aborted (snd (findEvents repo tgd es st)) \<noteq> None)
   \<and> (failed_when_aborted st \<longrightarrow> failed_when_aborted (snd (findEvents repo tgd es st)))"
proof (induction repo tgd es st rule: findEvents.induct)
  case (1 repo tgd st)
  show ?case by simp
next
  case (2 repo tgd pkg es st)
  show ?case
  proof (cases "aborted st \<noteq> None")
    case True
    with 2 show ?thesis by simp
  next
    case False
    obtain r st1 where cb: "findCb tgd pkg st = (r, st1)" by (cases "findCb tgd pkg st")
    show ?thesis
    proof (cases r)
      case None
      with 2(2) [OF False cb [symmetric, unfolded None]] False cb
        findCb_fields [where tgd = tgd and pkg = pkg and st = st]
      show ?thesis by (simp add: None)
    next
      case (Some e)
      with False cb findCb_fields [where tgd = tgd and pkg = pkg and st = st] show ?thesis by simp
    qed
  qed
next
  case (3 repo tgd k response es st)
  show ?case
  proof (cases "k < length (tasks st) \<and> \<not> settled (tasks st ! k)")
    case False
    with 3(2) show ?thesis by auto
  next
    case True
    let ?st = "st\<lparr>tasks := (tasks st)[k := (tasks st ! k)\<lparr>settled := True\<rparr>]\<rparr>"
    obtain r st1 where ft: "findTask repo (tasks st ! k) response ?st = (r, st1)"
      by (cases "findTask repo (tasks st ! k) response ?st")
    have f: "deleteCalls (trace st1) = deleteCalls (trace st)"
      "aborted st \<noteq> None \<Longrightarrow> aborted st1 \<noteq> None"
      "failed_when_aborted st \<Longrightarrow> failed_when_aborted st1"
      using findTask_fields [where repo = repo and t = "tasks st ! k" and r = response and st = ?st] ft
      by (auto simp: failed_when_aborted_def)
    show ?thesis
    proof (cases r)
      case None
      with 3(1) [OF True ft [symmetric, unfolded None]] True ft f
      show ?thesis by (simp add: None)
    next
      case (Some e)
      with True ft f show ?thesis by simp
    qed
  qed
qed

lemma findEvents_append:
  "findEvents repo tgd (es1 @ es2) st =
     (case findEvents repo tgd es1 st of
        (Some err, st1) \<Rightarrow> (Some err, st1)
      | (None, st1) \<Rightarrow> findEvents repo tgd es2 st1)"
  by (induction repo tgd es1 st rule: findEvents.induct)
     (auto split: prod.splits option.splits)

subsection \<open>The report\<close>

lemma logRegistryStats_fields:
  "deleteCalls (trace (snd (logRegistryStats tgd m debug g))) = deleteCalls (trace g)"
  "aborted (snd (logRegistryStats tgd m debug g)) = aborted g"
  "exitCode (snd (logRegistryStats tgd m debug g)) = exitCode g"
  by (simp_all add: logRegistryStats_def Let_def)

lemma logRegistryStats_lines:
  assumes "logRegistryStats tgd m debug g = (None, g2)"
  shows "\<exists>evs. trace g2 = trace g @ evs
    \<and> Log LInfo (MsgVersions (length (filter (\<lambda>e. info_id (snd e) \<noteq> None) m))) \<in> set evs
    \<and> Log LInfo (MsgDigests (length m)) \<in> set evs
    \<and> Log LInfo (MsgTags (sum_list (map (\<lambda>e. length (info_tags (snd e))) m))) \<in> set evs
    \<and> (Log LInfo (MsgOrphans (length (filter (\<lambda>e. isOrphan (snd e)) m))) \<in> set evs
       \<or> Log LWarn (MsgOrphans (length (filter (\<lambda>e. isOrphan (snd e)) m))) \<in> set evs)"
  using assms
  by (auto simp: logRegistryStats_def Let_def split: if_splits)

lemma logRegistryStats_no_tags:
  assumes "logRegistryStats [] m debug g = (None, g2)"
  shows "\<forall>e \<in> set m. \<not> belongsToTagsToDelete (snd e)"
  using assms
  by (auto simp: logRegistryStats_def Let_def filter_empty_conv split: if_splits)

subsection \<open>One entry of the deletion loop\<close>



lemma deleteEntry_fields:
  assumes "deleteEntry ld dor e m g = (r, m1, g1)"
  shows "aborted g1 = aborted g" "exitCode g1 = exitCode g"
  using assms
  by (auto simp: deleteEntry_def Let_def deletePackageVersion_def throwIfAborted_def
      split: option.splits if_splits prod.splits)




subsection \<open>The deletion loop\<close>

lemma deleteLoop_done: "length m \<le> i \<Longrightarrow> deleteLoop ld dor i m c g = (Inr c, g)"
  by (subst deleteLoop.simps) simp

lemma deleteLoop_throw:
  "i < length m \<Longrightarrow> deleteEntry ld dor (m ! i) m g = (Inl err, m1, g1)
    \<Longrightarrow> deleteLoop ld dor i m c g = (Inl err, g1)"
  by (subst deleteLoop.simps) simp

lemma deleteLoop_next:
  "i < length m \<Longrightarrow> deleteEntry ld dor (m ! i) m g = (Inr b, m1, g1)
    \<Longrightarrow> deleteLoop ld dor i m c g = deleteLoop ld dor (Suc i) m1 (if b then Suc c else c) g1"
  by (subst deleteLoop.simps) simp

lemma drop_Suc_grow:
  assumes "i < length m" "m1 = m \<or> m1 = m @ [x]"
  shows "set (drop (Suc i) m1) \<subseteq> set (drop (Suc i) m) \<union> (if m1 = m then {} else {x})"
    and "set (drop (Suc i) m) \<subseteq> set (drop (Suc i) m1)"
  using assms by auto

lemma deleteLoop_fields:
  "aborted (snd (deleteLoop ld dor i m c g)) = aborted g
   \<and> exitCode (snd (deleteLoop ld dor i m c g)) = exitCode g"
proof (induction ld dor i m c g rule: deleteLoop.induct)
  case (1 ld dor i m c g)
  show ?case
  proof (cases "length m \<le> i")
    case True
    then show ?thesis by (simp add: deleteLoop_done)
  next
    case False
    then have lt: "i < length m" by simp
    obtain r m1 g1 where de: "deleteEntry ld dor (m ! i) m g = (r, m1, g1)"
      by (cases "deleteEntry ld dor (m ! i) m g") auto
    show ?thesis
    proof (cases r)
      case (Inl err)
      with lt de deleteEntry_fields [OF de] show ?thesis by (simp add: deleteLoop_throw)
    next
      case (Inr b)
      have "aborted (snd (deleteLoop ld dor (Suc i) m1 (if b then Suc c else c) g1)) = aborted g1
        \<and> exitCode (snd (deleteLoop ld dor (Suc i) m1 (if b then Suc c else c) g1)) = exitCode g1"
        using 1 [OF False de [symmetric] Inr refl] .
      with lt de Inr deleteEntry_fields [OF de] show ?thesis by (simp add: deleteLoop_next)
    qed
  qed
qed



subsection \<open>Strings\<close>

lemma split_on_ne: "split_on c s \<noteq> []"
  by (induction s) (auto split: list.splits)

lemma split_on_hd: "hd (split_on c s) = takeWhile (\<lambda>x. x \<noteq> c) s"
  by (induction s) (auto split: list.splits simp: split_on_ne)

lemma split_on_tl:
  "c \<in> set s \<Longrightarrow> tl (split_on c s) = split_on c (tl (dropWhile (\<lambda>x. x \<noteq> c) s))"
  by (induction s) (auto split: list.splits simp: split_on_ne)

lemma indexOf_ge0: "0 \<le> indexOf s c \<longleftrightarrow> c \<in> set s"
  by (induction s) (auto simp: Let_def)

lemma indexOf_takeWhile:
  "c \<in> set s \<Longrightarrow> indexOf s c = int (length (takeWhile (\<lambda>x. x \<noteq> c) s))"
  by (induction s) (auto simp: Let_def indexOf_ge0)

lemma take2_split_on:
  assumes "c \<in> set s"
  shows "take 2 (split_on c s) =
    [takeWhile (\<lambda>x. x \<noteq> c) s, takeWhile (\<lambda>x. x \<noteq> c) (tl (dropWhile (\<lambda>x. x \<noteq> c) s))]"
proof -
  obtain p ps where sp: "split_on c s = p # ps"
    using split_on_ne [of c s] by (cases "split_on c s") auto
  obtain q qs where sq: "split_on c (tl (dropWhile (\<lambda>x. x \<noteq> c) s)) = q # qs"
    using split_on_ne [of c "tl (dropWhile (\<lambda>x. x \<noteq> c) s)"]
    by (cases "split_on c (tl (dropWhile (\<lambda>x. x \<noteq> c) s))") auto
  have p: "p = takeWhile (\<lambda>x. x \<noteq> c) s"
    using split_on_hd [of c s] sp by simp
  have "ps = q # qs"
    using split_on_tl [OF assms] sp sq by simp
  moreover have "q = takeWhile (\<lambda>x. x \<noteq> c) (tl (dropWhile (\<lambda>x. x \<noteq> c) s))"
    using split_on_hd [of c "tl (dropWhile (\<lambda>x. x \<noteq> c) s)"] sq by simp
  ultimately show ?thesis
    using sp p by (simp add: numeral_2_eq_2)
qed

subsection \<open>C9\<close>



subsection \<open>C10\<close>

text \<open>
  C10 fails as stated: \<open>/a/b\<close> contains a \<open>/\<close> at index 2, and \<^verbatim>\<open>validateRepo\<close> rejects it,
  because \<^verbatim>\<open>indexOf\<close> finds the \<open>/\<close> at index 0.
\<close>

theorem validateRepo_later_slash_counterexample:
  "(1::nat) \<le> 2 \<and> ''/a/b'' ! 2 = CHR ''/''
   \<and> validateRepo (Some ''/a/b'') = Inl (CmdLineParserError ''Invalid repository argument'')"
  by (simp add: validateRepo_def)

text \<open>
  C10, as the code has it. For every repository string whose first \<open>/\<close> is at index 1 or
  greater, \<^verbatim>\<open>validateRepo\<close> accepts it, and \<^verbatim>\<open>unpackRepo\<close> returns the substring before
  the first \<open>/\<close> as the account and the component between the first \<open>/\<close> and the second
  one (or the end of the string) as the package name; what follows a second \<open>/\<close> is dropped.
\<close>

theorem validateRepo_unpackRepo:
  assumes "1 \<le> indexOf repo (CHR ''/'')"
  shows "validateRepo (Some repo) = Inr repo
    \<and> indexOf repo (CHR ''/'') = int (length (takeWhile (\<lambda>x. x \<noteq> CHR ''/'') repo))
    \<and> unpackRepo repo =
        (Some (takeWhile (\<lambda>x. x \<noteq> CHR ''/'') repo),
         Some (takeWhile (\<lambda>x. x \<noteq> CHR ''/'') (tl (dropWhile (\<lambda>x. x \<noteq> CHR ''/'') repo))))"
proof -
  have mem: "CHR ''/'' \<in> set repo"
    using assms indexOf_ge0 [of repo "CHR ''/''"] by simp
  then have ne: "repo \<noteq> []" by auto
  have v: "validateRepo (Some repo) = Inr repo"
    using assms ne by (simp add: validateRepo_def)
  have u: "unpackRepo repo =
        (Some (takeWhile (\<lambda>x. x \<noteq> CHR ''/'') repo),
         Some (takeWhile (\<lambda>x. x \<noteq> CHR ''/'') (tl (dropWhile (\<lambda>x. x \<noteq> CHR ''/'') repo))))"
    by (simp add: unpackRepo_def take2_split_on [OF mem] nth_opt_def)
  show ?thesis using v u indexOf_takeWhile [OF mem] by simp
qed

theorem validateRepo_unpackRepo_witness:
  "1 \<le> indexOf ''a/b/c'' (CHR ''/'') \<and> validateRepo (Some ''a/b/c'') = Inr ''a/b/c''
   \<and> unpackRepo ''a/b/c'' = (Some ''a'', Some ''b'')"
proof -
  have h: "1 \<le> indexOf ''a/b/c'' (CHR ''/'')" by simp
  show ?thesis using h validateRepo_unpackRepo [OF h] by simp
qed

subsection \<open>C3\<close>

text \<open>
  C3 fails as stated: after the tag lists \<open>[a, b]\<close> and \<open>[b, c]\<close> the tag \<open>a\<close> still maps to
  the group \<open>{a, b}\<close> and \<open>b\<close> maps to \<open>{b, c}\<close>; no group \<open>{a, b, c}\<close> exists.
\<close>

theorem groupTags_no_merge_counterexample:
  "map_of (groupTags [''b'', ''c''] (groupTags [''a'', ''b''] [(UNKNOWN_TAG, [UNKNOWN_TAG])])) ''a''
     = Some [''a'', ''b'']
   \<and> map_of (groupTags [''b'', ''c''] (groupTags [''a'', ''b''] [(UNKNOWN_TAG, [UNKNOWN_TAG])])) ''b''
     = Some [''b'', ''c'']"
  by (simp add: groupTags_def newSet_def Let_def UNKNOWN_TAG_def)

text \<open>
  C3, as the code has it. After the tag grouper ran on a record's tag list, every tag of
  the list maps to one new group whose members are exactly the tags of the list, each
  once; every other tag keeps the group it had, unchanged, also when that group holds a
  tag of the list. Groups are never merged.
\<close>

theorem groupTags_overwrites:
  "map_of (groupTags tgs groups) t =
     (if t \<in> set tgs then Some (newSet tgs) else map_of groups t)
   \<and> set (newSet tgs) = set tgs \<and> distinct (newSet tgs)"
  by (simp add: groupTags_def Let_def map_of_fold_update set_newSet distinct_newSet)

theorem groupTags_overwrites_witness:
  "map_of (groupTags [''b'', ''c''] [(''a'', [''a'', ''b'']), (''b'', [''a'', ''b''])]) ''a''
     = Some [''a'', ''b'']
   \<and> map_of (groupTags [''b'', ''c''] [(''a'', [''a'', ''b'']), (''b'', [''a'', ''b''])]) ''c''
     = Some [''b'', ''c'']"
  using groupTags_overwrites [of "[''b'', ''c'']" "[(''a'', [''a'', ''b'']), (''b'', [''a'', ''b''])]" "''a''"]
    groupTags_overwrites [of "[''b'', ''c'']" "[(''a'', [''a'', ''b'']), (''b'', [''a'', ''b''])]" "''c''"]
  by (simp add: newSet_def)

subsection \<open>From the loop to the exit code\<close>



subsection \<open>C1\<close>




subsection \<open>C7\<close>



end
